theory Spec2Isabelle
  imports Main "HOL-Library.Multiset"
begin

section \<open>The gallery server (server.js): data model\<close>

text \<open>
  A shallow embedding of \<^verbatim>\<open>src/server.js\<close>: the post store on disk, the statistics
  snapshot, the HTTP routes \<^verbatim>\<open>GET /api/posts\<close> and \<^verbatim>\<open>POST /api/posts/:id/view\<close>, and the
  Telegram handlers for photo, video and text messages and for the bot's commands.

  Conventions of the embedding.
  \<^item> JavaScript numbers that hold counters, identifiers and timestamps are modelled as
    \<open>int\<close>; \<open>NaN\<close> is \<open>None\<close> of \<open>int option\<close>. Doubles are exact on integers of magnitude
    below \<open>2^53\<close>, which is where the model agrees with the program.
  \<^item> Strings are \<open>string\<close>, read as ASCII text: \<open>trim\<close> removes the ASCII white space
    (code points 9 to 13 and 32) and \<open>toLowerCase\<close> maps \<open>A\<close>-\<open>Z\<close>.
  \<^item> An ISO-8601 time stamp (\<^verbatim>\<open>created_at\<close>, \<^verbatim>\<open>last_update\<close>) is modelled by the time value
    in milliseconds that \<^verbatim>\<open>new Date(...)\<close> reads from it.
  \<^item> A value that may be \<^verbatim>\<open>undefined\<close> or \<^verbatim>\<open>null\<close> is an \<open>option\<close>.
  \<^item> Every \<^verbatim>\<open>throw\<close> is a branch of the model, and every \<^verbatim>\<open>catch\<close> is the \<open>case\<close> that
    consumes it.
\<close>

datatype media_kind = ImagePost | VideoPost

text \<open>The post object built by the photo and video handlers (\<^verbatim>\<open>newPost\<close>). The field
  \<^verbatim>\<open>id\<close> is \<open>post_id\<close> and \<^verbatim>\<open>type\<close> is \<open>ptype\<close>; \<open>views\<close> is optional because the
  code reads it as \<^verbatim>\<open>post.views || 0\<close>; \<open>duration\<close> exists for videos only.\<close>

record post =
  post_id :: int
  ptype :: media_kind
  media_url :: string
  thumbnail :: string
  caption :: string
  description :: string
  author :: string
  created_at :: int
  views :: "int option"
  telegram_file_id :: string
  duration :: "int option"
  width :: int
  height :: int
  file_size :: int

record stats =
  total_posts :: nat
  total_views :: int
  last_update :: int

datatype error = ENOENT | EACCES | EIO | SyntaxError | TypeError | FetchError

subsection \<open>The data files\<close>

text \<open>
  The state of a data file, as \<^verbatim>\<open>fs.readFile\<close> followed by \<^verbatim>\<open>JSON.parse\<close> sees it: the
  file is absent, it exists but cannot be read, its text is not JSON, or its text is the
  JSON of a value. The only writers of the files, \<^verbatim>\<open>initializeData\<close>, \<^verbatim>\<open>writePosts\<close> and
  \<^verbatim>\<open>updateStats\<close>, store an array of posts in \<^verbatim>\<open>posts.json\<close> and a statistics object in
  \<^verbatim>\<open>stats.json\<close>.
\<close>

datatype 'a data_file = Absent | Unreadable | Malformed | Json 'a

text \<open>The disk: the two files, and whether \<^verbatim>\<open>fs.writeFile\<close> to each succeeds. A write
  that fails leaves the file as it was.\<close>

record disk =
  posts_file :: "post list data_file"
  stats_file :: "stats data_file"
  posts_writable :: bool
  stats_writable :: bool

text \<open>\<^verbatim>\<open>await fs.readFile(FILE, 'utf8')\<close>: the text of the file, or an exception.\<close>

definition fs_readFile :: "'a data_file \<Rightarrow> error + 'a data_file" where
  "fs_readFile f =
     (case f of
        Absent \<Rightarrow> Inl ENOENT
      | Unreadable \<Rightarrow> Inl EACCES
      | Malformed \<Rightarrow> Inr Malformed
      | Json v \<Rightarrow> Inr (Json v))"

text \<open>\<^verbatim>\<open>JSON.parse(data)\<close> on the text that was read.\<close>

definition JSON_parse :: "'a data_file \<Rightarrow> error + 'a" where
  "JSON_parse data =
     (case data of
        Json v \<Rightarrow> Inr v
      | _ \<Rightarrow> Inl SyntaxError)"

text \<open>The \<^verbatim>\<open>try\<close> block of \<^verbatim>\<open>readPosts\<close>, and \<^verbatim>\<open>readPosts\<close> with its \<^verbatim>\<open>catch\<close>, which
  logs the error and returns \<^verbatim>\<open>[]\<close>.\<close>

definition readPosts_try :: "post list data_file \<Rightarrow> error + post list" where
  "readPosts_try f =
     (case fs_readFile f of
        Inl e \<Rightarrow> Inl e
      | Inr data \<Rightarrow> JSON_parse data)"

definition readPosts :: "post list data_file \<Rightarrow> post list" where
  "readPosts f =
     (case readPosts_try f of
        Inl e \<Rightarrow> []
      | Inr ps \<Rightarrow> ps)"

text \<open>\<^verbatim>\<open>writePosts(posts)\<close>: true and the file rewritten, or false (the exception of
  \<^verbatim>\<open>fs.writeFile\<close> is caught and logged).\<close>

definition writePosts :: "post list \<Rightarrow> disk \<Rightarrow> bool \<times> disk" where
  "writePosts ps d =
     (if posts_writable d then (True, d\<lparr>posts_file := Json ps\<rparr>) else (False, d))"

text \<open>\<^verbatim>\<open>post.views || 0\<close>: zero for a missing counter, and for the (falsy) counter 0.\<close>

definition views_or_0 :: "post \<Rightarrow> int" where
  "views_or_0 p = (case views p of None \<Rightarrow> 0 | Some v \<Rightarrow> (if v = 0 then 0 else v))"

text \<open>\<^verbatim>\<open>updateStats()\<close> at clock reading \<open>now\<close>: the snapshot is computed from
  \<^verbatim>\<open>readPosts()\<close>, with \<^verbatim>\<open>posts.reduce((sum, post) => sum + (post.views || 0), 0)\<close> a left
  fold; it is written to the statistics file and returned, or the write fails and the
  result is \<^verbatim>\<open>null\<close>.\<close>

definition updateStats :: "int \<Rightarrow> disk \<Rightarrow> stats option \<times> disk" where
  "updateStats now d =
     (let ps = readPosts (posts_file d);
          st = \<lparr>total_posts = length ps,
                total_views = foldl (\<lambda>sum p. sum + views_or_0 p) 0 ps,
                last_update = now\<rparr>
      in if stats_writable d then (Some st, d\<lparr>stats_file := Json st\<rparr>) else (None, d))"

section \<open>Strings and numbers of the language\<close>

text \<open>ASCII white space, as \<^verbatim>\<open>String.prototype.trim\<close> and \<^verbatim>\<open>parseInt\<close> skip it: tab,
  line feed, vertical tab, form feed, carriage return and space.\<close>

definition isWhiteSpace :: "char \<Rightarrow> bool" where
  "isWhiteSpace c = (c \<in> set [CHR 0x09, CHR 0x0A, CHR 0x0B, CHR 0x0C, CHR 0x0D, CHR '' ''])"

definition trim :: "string \<Rightarrow> string" where
  "trim s = rev (dropWhile isWhiteSpace (rev (dropWhile isWhiteSpace s)))"

definition toLowerCase_char :: "char \<Rightarrow> char" where
  "toLowerCase_char c =
     (let n = (of_char c :: nat) in if 65 \<le> n \<and> n \<le> 90 then char_of (n + 32) else c)"

definition toLowerCase :: "string \<Rightarrow> string" where
  "toLowerCase s = map toLowerCase_char s"

text \<open>\<^verbatim>\<open>s.split(sep)\<close> for a separator of one character: the pieces between the
  separators, so that the empty string gives one empty piece.\<close>

fun split_on :: "char \<Rightarrow> string \<Rightarrow> string list" where
  "split_on sep [] = [[]]"
| "split_on sep (c # cs) =
     (let r = split_on sep cs in
      if c = sep then [] # r
      else (case r of x # xs \<Rightarrow> (c # x) # xs | [] \<Rightarrow> [[c]]))"

text \<open>\<^verbatim>\<open>parts.join(sep)\<close>.\<close>

fun join_with :: "char \<Rightarrow> string list \<Rightarrow> string" where
  "join_with sep [] = []"
| "join_with sep [x] = x"
| "join_with sep (x # y # ys) = x @ sep # join_with sep (y # ys)"

text \<open>The value of a character as a digit: \<open>0\<close>-\<open>9\<close>, then the letters in either case
  from 10 on.\<close>

definition digitValue :: "char \<Rightarrow> nat option" where
  "digitValue c =
     (let n = (of_char c :: nat) in
      if 48 \<le> n \<and> n \<le> 57 then Some (n - 48)
      else if 97 \<le> n \<and> n \<le> 122 then Some (n - 87)
      else if 65 \<le> n \<and> n \<le> 90 then Some (n - 55)
      else None)"

definition isRadixDigit :: "nat \<Rightarrow> char \<Rightarrow> bool" where
  "isRadixDigit R c = (case digitValue c of None \<Rightarrow> False | Some v \<Rightarrow> v < R)"

definition radixValue :: "nat \<Rightarrow> string \<Rightarrow> nat" where
  "radixValue R Z = foldl (\<lambda>acc c. acc * R + (case digitValue c of None \<Rightarrow> 0 | Some v \<Rightarrow> v)) 0 Z"

text \<open>
  \<^verbatim>\<open>parseInt(s)\<close> with no radix, after ECMAScript: skip leading white space, read a sign,
  read the prefix \<^verbatim>\<open>0x\<close> or \<^verbatim>\<open>0X\<close> (radix 16, else radix 10), take the longest run of digits
  of the radix; no digit gives \<open>NaN\<close>, here \<open>None\<close>.
\<close>

definition parseInt :: "string \<Rightarrow> int option" where
  "parseInt s =
     (let S = dropWhile isWhiteSpace s;
          sign = (if take 1 S = ''-'' then - 1 else 1 :: int);
          S1 = (if take 1 S = ''-'' \<or> take 1 S = ''+'' then drop 1 S else S);
          hex = (take 2 S1 = ''0x'' \<or> take 2 S1 = ''0X'');
          R = (if hex then 16 else 10);
          S2 = (if hex then drop 2 S1 else S1);
          Z = takeWhile (isRadixDigit R) S2
      in if Z = [] then None else Some (sign * int (radixValue R Z)))"

text \<open>The decimal digits of a natural number, and \<^verbatim>\<open>String(n)\<close> for an integer \<open>n\<close>
  (what \<^verbatim>\<open>parseInt\<close> first turns a number argument into).\<close>

fun digits :: "nat \<Rightarrow> string" where
  "digits n =
     (if n < 10 then [char_of (48 + n)] else digits (n div 10) @ [char_of (48 + n mod 10)])"

definition js_toString :: "int \<Rightarrow> string" where
  "js_toString n = (if n < 0 then CHR ''-'' # digits (nat (- n)) else digits (nat n))"

text \<open>Arithmetic on numbers that may be \<open>NaN\<close>: \<open>NaN\<close> in, \<open>NaN\<close> out.\<close>

definition js_arith :: "(int \<Rightarrow> int \<Rightarrow> int) \<Rightarrow> int option \<Rightarrow> int option \<Rightarrow> int option" where
  "js_arith f a b =
     (case a of
        None \<Rightarrow> None
      | Some x \<Rightarrow> (case b of None \<Rightarrow> None | Some y \<Rightarrow> Some (f x y)))"

text \<open>\<^verbatim>\<open>xs.slice(start, end)\<close>: an index that is \<open>NaN\<close> counts as 0, a negative one
  counts from the end, and both are clamped to the length.\<close>

definition js_slice :: "'a list \<Rightarrow> int option \<Rightarrow> int option \<Rightarrow> 'a list" where
  "js_slice xs start end' =
     (let len = int (length xs);
          relativeStart = (case start of None \<Rightarrow> 0 | Some i \<Rightarrow> i);
          k = (if relativeStart < 0 then max (len + relativeStart) 0 else min relativeStart len);
          relativeEnd = (case end' of None \<Rightarrow> 0 | Some i \<Rightarrow> i);
          final = (if relativeEnd < 0 then max (len + relativeEnd) 0 else min relativeEnd len);
          count = max (final - k) 0
      in take (nat count) (drop (nat k) xs))"

text \<open>\<^verbatim>\<open>xs.findIndex(P)\<close>: the first index whose element satisfies \<open>P\<close>; \<open>None\<close> is the
  result \<open>-1\<close>.\<close>

fun findIndex :: "('a \<Rightarrow> bool) \<Rightarrow> 'a list \<Rightarrow> nat option" where
  "findIndex P [] = None"
| "findIndex P (x # xs) =
     (if P x then Some 0 else (case findIndex P xs of None \<Rightarrow> None | Some i \<Rightarrow> Some (Suc i)))"

section \<open>The gallery API\<close>

text \<open>The envelope of a route: \<^verbatim>\<open>{ success: true, ... }\<close> with its payload, or the answer
  of the route's \<^verbatim>\<open>catch\<close>, status 500 with \<^verbatim>\<open>{ success: false, error }\<close>.\<close>

datatype 'a response = Success 'a | InternalServerError

text \<open>The payload of \<^verbatim>\<open>GET /api/posts\<close>. \<open>page\<close> and \<open>total_pages\<close> are as \<^verbatim>\<open>res.json\<close>
  writes them: \<^verbatim>\<open>null\<close>, here \<open>None\<close>, for \<open>NaN\<close> and for an infinite quotient.\<close>

record listing =
  posts :: "post list"
  total :: nat
  page :: "int option"
  total_pages :: "int option"
  stats :: "stats option"

text \<open>\<^verbatim>\<open>posts.sort((a, b) => new Date(b.created_at) - new Date(a.created_at))\<close>: a stable
  sort, newest first.\<close>

definition sort_newest_first :: "post list \<Rightarrow> post list" where
  "sort_newest_first ps = sort_key (\<lambda>p. - created_at p) ps"

text \<open>\<^verbatim>\<open>Math.ceil(n / limitNum)\<close> as serialised: no number for \<open>NaN\<close> and for a division
  by zero.\<close>

definition ceil_pages :: "nat \<Rightarrow> int option \<Rightarrow> int option" where
  "ceil_pages n limitNum =
     (case limitNum of
        None \<Rightarrow> None
      | Some l \<Rightarrow> (if l = 0 then None else Some (- ((- int n) div l))))"

text \<open>
  \<^verbatim>\<open>app.get('/api/posts')\<close>. The query values \<open>page\<close> and \<open>limit\<close> are strings when present;
  the destructuring \<^verbatim>\<open>{ page = 1, limit = 12 } = req.query\<close> puts the numbers 1 and 12 in
  place of an absent one, and \<^verbatim>\<open>parseInt\<close> reads a number through its decimal string.
\<close>

definition get_posts :: "int \<Rightarrow> string option \<Rightarrow> string option \<Rightarrow> disk \<Rightarrow> listing response \<times> disk" where
  "get_posts now page_q limit_q d =
     (let page_v = (case page_q of None \<Rightarrow> js_toString 1 | Some s \<Rightarrow> s);
          limit_v = (case limit_q of None \<Rightarrow> js_toString 12 | Some s \<Rightarrow> s);
          ps = readPosts (posts_file d);
          sortedPosts = sort_newest_first ps;
          pageNum = parseInt page_v;
          limitNum = parseInt limit_v;
          startIndex = js_arith (\<lambda>x y. x * y) (js_arith (\<lambda>x y. x - y) pageNum (Some 1)) limitNum;
          endIndex = js_arith (\<lambda>x y. x + y) startIndex limitNum;
          paginatedPosts = js_slice sortedPosts startIndex endIndex;
          (st, d') = updateStats now d
      in (Success \<lparr>posts = paginatedPosts, total = length ps, page = pageNum,
                    total_pages = ceil_pages (length ps) limitNum, stats = st\<rparr>, d'))"

text \<open>A client that asks for the pages \<open>k\<close>, \<open>k + 1\<close>, ... one after the other, \<open>n\<close> of
  them, with page size \<open>L\<close>, and appends the posts of each answer (as \<^verbatim>\<open>loadPosts\<close> and
  \<^verbatim>\<open>loadMorePosts\<close> of the front end do); every request runs on the disk the one before
  left.\<close>

fun fetch_pages :: "int \<Rightarrow> nat \<Rightarrow> int \<Rightarrow> int \<Rightarrow> disk \<Rightarrow> post list" where
  "fetch_pages now 0 k L d = []"
| "fetch_pages now (Suc n) k L d =
     (case get_posts now (Some (js_toString k)) (Some (js_toString L)) d of
        (Success r, d') \<Rightarrow> posts r @ fetch_pages now n (k + 1) L d'
      | (InternalServerError, d') \<Rightarrow> fetch_pages now n (k + 1) L d')"

text \<open>
  \<^verbatim>\<open>app.post('/api/posts/:id/view')\<close> with the path parameter \<open>id\<close>. \<^verbatim>\<open>p.id === postId\<close> is
  false for every post when \<open>postId\<close> is \<open>NaN\<close>.
\<close>

definition view_post :: "int \<Rightarrow> string \<Rightarrow> disk \<Rightarrow> unit response \<times> disk" where
  "view_post now id_param d =
     (let postId = parseInt id_param;
          ps = readPosts (posts_file d);
          postIndex = findIndex (\<lambda>p. Some (post_id p) = postId) ps
      in (case postIndex of
            None \<Rightarrow> (Success (), d)
          | Some i \<Rightarrow>
              (let ps' = ps[i := (ps ! i)\<lparr>views := Some (views_or_0 (ps ! i) + 1)\<rparr>];
                   (written, d1) = writePosts ps' d;
                   (st, d2) = updateStats now d1
               in (Success (), d2))))"

text \<open>\<open>n\<close> calls of the route, one after the other, on the same \<open>id\<close>.\<close>

fun view_times :: "nat \<Rightarrow> int \<Rightarrow> string \<Rightarrow> disk \<Rightarrow> disk" where
  "view_times 0 now id_param d = d"
| "view_times (Suc n) now id_param d = view_times n now id_param (snd (view_post now id_param d))"

section \<open>The upload conversation of the bot\<close>

text \<open>\<^verbatim>\<open>ctx.from\<close>, a Telegram file object (a photo size or a video), and what a handler
  reads from outside: \<^verbatim>\<open>Date.now()\<close>, the time value of \<^verbatim>\<open>new Date()\<close>, and the answer of
  \<^verbatim>\<open>ctx.telegram.getFileLink(file_id)\<close>, the \<^verbatim>\<open>href\<close> of the link or an exception.\<close>

record sender =
  username :: "string option"
  first_name :: "string option"

record tg_file =
  file_id :: string
  file_width :: int
  file_height :: int
  file_bytes :: int
  file_duration :: "int option"

record env =
  date_now :: int
  new_date :: int
  getFileLink :: "string \<Rightarrow> error + string"

text \<open>\<^verbatim>\<open>ctx.session\<close>, when there is one: the pending post and the flag.\<close>

record session =
  pendingPost :: "post option"
  waitingForDescription :: bool

text \<open>
  The messages the handlers send with \<^verbatim>\<open>ctx.reply\<close>:
  \<^item> \<open>NotAuthorized\<close>: "Admin only. You are not authorized to upload.";
  \<^item> \<open>UsageGuidance\<close>: "Please use /upload command with your caption", with an example;
  \<^item> \<open>DescriptionPrompt\<close>: "Photo received!" or "Video received!", then "Please send a
    description for this post (or send "skip" to skip):";
  \<^item> \<open>ErrorProcessing\<close>: "Error processing photo. Please try again." (or video);
  \<^item> \<open>UploadedSuccessfully t c d a i\<close>: "Photo uploaded successfully!" (or Video), with the
    lines Caption: \<open>c\<close>, Description: \<open>d\<close>, By: \<open>a\<close>, ID: \<open>i\<close> and the links built from \<open>i\<close>;
  \<^item> \<open>ErrorSaving\<close>: "Error saving post. Please try again.".

  The messages of the command handlers:
  \<^item> \<open>AccessDenied\<close>: "Access Denied. This bot is for admin use only." (\<^verbatim>\<open>/start\<close>);
  \<^item> \<open>WelcomeAdmin\<close>: "Welcome Admin!" and the upload instructions;
  \<^item> \<open>AdminUseOnly\<close>: "This bot is for admin use only." (\<^verbatim>\<open>/help\<close>);
  \<^item> \<open>AdminCommands\<close>: the list of commands;
  \<^item> \<open>AdminOnlyCommand\<close>: "Admin only command.";
  \<^item> \<open>WebsiteStatistics n v i w t u\<close>: "Website Statistics:" with total posts \<open>n\<close>, total
    views \<open>v\<close>, images \<open>i\<close>, videos \<open>w\<close>, last update \<open>t\<close> and the admin's username \<open>u\<close>;
  \<^item> \<open>ErrorStatistics\<close>: "Error getting statistics";
  \<^item> \<open>NoPostsYet\<close>: "No posts yet. Start uploading!";
  \<^item> \<open>LatestPosts ps n\<close>: "Latest 10 Posts:", one entry for each post of \<open>ps\<close> (caption or
    "Untitled", views or 0, age, id), and "Total: \<open>n\<close> posts";
  \<^item> \<open>DeleteUsage\<close>: "Usage: /delete [post_id]"; \<open>InvalidPostId\<close>: "Invalid post ID";
    \<open>PostNotFound\<close>: "Post not found";
  \<^item> \<open>PostDeleted c i n\<close>: "Post deleted successfully!" with caption \<open>c\<close>, id \<open>i\<close> and \<open>n\<close>
    remaining posts.
\<close>

datatype reply =
    NotAuthorized
  | UsageGuidance media_kind
  | DescriptionPrompt media_kind
  | ErrorProcessing media_kind
  | UploadedSuccessfully media_kind string string string int
  | ErrorSaving
  | AccessDenied
  | WelcomeAdmin
  | AdminUseOnly
  | AdminCommands
  | AdminOnlyCommand
  | WebsiteStatistics nat int nat nat int "string option"
  | ErrorStatistics
  | NoPostsYet
  | LatestPosts "post list" nat
  | DeleteUsage
  | InvalidPostId
  | PostNotFound
  | PostDeleted string int nat

text \<open>\<^verbatim>\<open>isAdmin(ctx)\<close>; \<open>admins\<close> is \<^verbatim>\<open>ADMIN_USERNAMES\<close>.\<close>

definition isAdmin :: "string list \<Rightarrow> sender \<Rightarrow> bool" where
  "isAdmin admins from =
     (case username from of
        None \<Rightarrow> False
      | Some u \<Rightarrow> (if u = [] then False else toLowerCase u \<in> set admins))"

text \<open>\<^verbatim>\<open>ctx.from.username || ctx.from.first_name || 'Admin'\<close>.\<close>

definition author_of :: "sender \<Rightarrow> string" where
  "author_of from =
     (case username from of
        Some (c # cs) \<Rightarrow> c # cs
      | _ \<Rightarrow> (case first_name from of Some (c # cs) \<Rightarrow> c # cs | _ \<Rightarrow> ''Admin''))"

text \<open>The caption of the post from the caption of the message, shared by both media
  handlers: \<^verbatim>\<open>caption.split(' ')\<close>, whose first piece must be \<^verbatim>\<open>/upload\<close>, and then
  \<^verbatim>\<open>captionParts.join(' ').trim() || fallback\<close>. \<open>None\<close> is the early return with the
  usage message.\<close>

definition upload_caption :: "string \<Rightarrow> string option \<Rightarrow> string option" where
  "upload_caption fallback message_caption =
     (let caption = (case message_caption of None \<Rightarrow> [] | Some c \<Rightarrow> c)
      in (case split_on (CHR '' '') caption of
            [] \<Rightarrow> None
          | command # captionParts \<Rightarrow>
              if command \<noteq> ''/upload'' then None
              else (let joined = trim (join_with (CHR '' '') captionParts)
                    in Some (if joined = [] then fallback else joined))))"

text \<open>\<^verbatim>\<open>ctx.session = ctx.session || {}\<close>, then the two assignments.\<close>

definition stage_pending :: "post \<Rightarrow> session option \<Rightarrow> session option" where
  "stage_pending newPost sess =
     (let s = (case sess of None \<Rightarrow> \<lparr>pendingPost = None, waitingForDescription = False\<rparr> | Some s \<Rightarrow> s)
      in Some (s\<lparr>pendingPost := Some newPost, waitingForDescription := True\<rparr>))"

text \<open>\<^verbatim>\<open>bot.on('photo')\<close>. \<^verbatim>\<open>ctx.message.photo.pop()\<close> is the last size; on an empty array it
  is \<^verbatim>\<open>undefined\<close>, and reading its \<^verbatim>\<open>file_id\<close> throws. The handler also calls \<^verbatim>\<open>readPosts()\<close>
  and does not use the result.\<close>

definition photo_handler ::
  "string list \<Rightarrow> env \<Rightarrow> sender \<Rightarrow> string option \<Rightarrow> tg_file list \<Rightarrow> session option
     \<Rightarrow> reply list \<times> session option" where
  "photo_handler admins e from message_caption sizes sess =
     (if \<not> isAdmin admins from then ([NotAuthorized], sess)
      else (case upload_caption ''Untitled Post'' message_caption of
              None \<Rightarrow> ([UsageGuidance ImagePost], sess)
            | Some actualCaption \<Rightarrow>
                (case rev sizes of
                   [] \<Rightarrow> ([ErrorProcessing ImagePost], sess)
                 | photo # smaller \<Rightarrow>
                     (case getFileLink e (file_id photo) of
                        Inl err \<Rightarrow> ([ErrorProcessing ImagePost], sess)
                      | Inr fileUrl \<Rightarrow>
                          (let newPost =
                                 \<lparr>post_id = date_now e, ptype = ImagePost, media_url = fileUrl,
                                  thumbnail = fileUrl, caption = actualCaption, description = [],
                                  author = author_of from, created_at = new_date e,
                                  views = Some 0, telegram_file_id = file_id photo,
                                  duration = None, width = file_width photo,
                                  height = file_height photo, file_size = file_bytes photo\<rparr>
                           in ([DescriptionPrompt ImagePost], stage_pending newPost sess))))))"

text \<open>\<^verbatim>\<open>bot.on('video')\<close>.\<close>

definition video_handler ::
  "string list \<Rightarrow> env \<Rightarrow> sender \<Rightarrow> string option \<Rightarrow> tg_file \<Rightarrow> session option
     \<Rightarrow> reply list \<times> session option" where
  "video_handler admins e from message_caption video sess =
     (if \<not> isAdmin admins from then ([NotAuthorized], sess)
      else (case upload_caption ''Untitled Video'' message_caption of
              None \<Rightarrow> ([UsageGuidance VideoPost], sess)
            | Some actualCaption \<Rightarrow>
                (case getFileLink e (file_id video) of
                   Inl err \<Rightarrow> ([ErrorProcessing VideoPost], sess)
                 | Inr fileUrl \<Rightarrow>
                     (let newPost =
                            \<lparr>post_id = date_now e, ptype = VideoPost, media_url = fileUrl,
                             thumbnail = [], caption = actualCaption, description = [],
                             author = author_of from, created_at = new_date e,
                             views = Some 0, telegram_file_id = file_id video,
                             duration = file_duration video, width = file_width video,
                             height = file_height video, file_size = file_bytes video\<rparr>
                      in ([DescriptionPrompt VideoPost], stage_pending newPost sess)))))"

text \<open>
  \<^verbatim>\<open>bot.on('text')\<close>. Both places where the \<^verbatim>\<open>try\<close> block can throw are branches: setting
  \<^verbatim>\<open>description\<close> on a \<^verbatim>\<open>pendingPost\<close> that is \<^verbatim>\<open>null\<close>, and reading \<^verbatim>\<open>post.type\<close> from
  \<^verbatim>\<open>const post = ctx.session.pendingPost\<close>, which is read after the session was cleared.
  The \<^verbatim>\<open>catch\<close> replies with the error message and clears the session. \<^verbatim>\<open>writePosts\<close> and
  \<^verbatim>\<open>updateStats\<close> do not throw, and their results are not looked at.
\<close>

definition text_handler ::
  "env \<Rightarrow> string \<Rightarrow> session option \<Rightarrow> disk \<Rightarrow> reply list \<times> session option \<times> disk" where
  "text_handler e text sess d =
     (case sess of
        None \<Rightarrow> ([], None, d)
      | Some s \<Rightarrow>
          if \<not> waitingForDescription s then ([], Some s, d)
          else
            (case pendingPost s of
               None \<Rightarrow>
                 ([ErrorSaving], Some (s\<lparr>pendingPost := None, waitingForDescription := False\<rparr>), d)
             | Some pending \<Rightarrow>
                 (let description' = trim text;
                      pending' = pending\<lparr>description :=
                                   (if toLowerCase description' = ''skip'' then [] else description')\<rparr>;
                      ps = readPosts (posts_file d);
                      (written, d1) = writePosts (pending' # ps) d;
                      (st, d2) = updateStats (new_date e) d1;
                      s1 = s\<lparr>pendingPost := None, waitingForDescription := False\<rparr>
                  in (case pendingPost s1 of
                        None \<Rightarrow>
                          ([ErrorSaving],
                           Some (s1\<lparr>pendingPost := None, waitingForDescription := False\<rparr>), d2)
                      | Some post \<Rightarrow>
                          ([UploadedSuccessfully (ptype post) (caption post)
                              (if description post = [] then ''None'' else description post)
                              (author post) (post_id post)],
                           Some s1, d2)))))"

text \<open>The updates of the conversation, and the handler Telegraf routes each to. A text
  update is one that reaches \<^verbatim>\<open>bot.on('text')\<close>.\<close>

datatype update =
    PhotoMessage sender "string option" "tg_file list"
  | VideoMessage sender "string option" tg_file
  | TextMessage string

fun handleUpdate ::
  "string list \<Rightarrow> env \<Rightarrow> update \<Rightarrow> session option \<Rightarrow> disk \<Rightarrow> reply list \<times> session option \<times> disk" where
  "handleUpdate admins e (PhotoMessage from cap sizes) sess d =
     (case photo_handler admins e from cap sizes sess of (rs, sess') \<Rightarrow> (rs, sess', d))"
| "handleUpdate admins e (VideoMessage from cap video) sess d =
     (case video_handler admins e from cap video sess of (rs, sess') \<Rightarrow> (rs, sess', d))"
| "handleUpdate admins e (TextMessage text) sess d = text_handler e text sess d"

text \<open>The two states of the conversation, read from the session.\<close>

definition awaiting_description :: "session option \<Rightarrow> bool" where
  "awaiting_description sess =
     (case sess of None \<Rightarrow> False | Some s \<Rightarrow> waitingForDescription s)"

definition idle :: "session option \<Rightarrow> bool" where
  "idle sess = (\<not> awaiting_description sess)"

subsection \<open>The commands, and the way of a text message through the bot\<close>









section \<open>Observations, the spec's token, and sample data\<close>

text \<open>The posts in the store, as \<open>readPosts\<close> returns them.\<close>

abbreviation stored :: "disk \<Rightarrow> post list" where
  "stored d \<equiv> readPosts (posts_file d)"

text \<open>The \<open>posts\<close> array of an answer of \<^verbatim>\<open>GET /api/posts\<close>; \<open>None\<close> for the error
  envelope.\<close>

definition listing_posts :: "listing response \<times> disk \<Rightarrow> post list option" where
  "listing_posts answer =
     (case fst answer of Success l \<Rightarrow> Some (posts l) | InternalServerError \<Rightarrow> None)"

text \<open>The first whitespace-delimited token of a caption, in the words of the
  specification: the characters before the first white space of any kind. The code
  splits at the space character only (\<open>upload_caption\<close>).\<close>

definition spec_first_token :: "string \<Rightarrow> string" where
  "spec_first_token s = takeWhile (\<lambda>c. \<not> isWhiteSpace c) s"

text \<open>A store of two posts, the older one first in the file and without a counter, and
  the surroundings of a handler, for the concrete instances below.\<close>

definition sample_post :: post where
  "sample_post =
     \<lparr>post_id = 123, ptype = ImagePost, media_url = ''https://files.example/a.jpg'',
      thumbnail = ''https://files.example/a.jpg'', caption = ''Sunset'', description = [],
      author = ''admin'', created_at = 1000, views = Some 3, telegram_file_id = ''a'',
      duration = None, width = 640, height = 480, file_size = 2048\<rparr>"

definition older_post :: post where
  "older_post =
     \<lparr>post_id = 77, ptype = VideoPost, media_url = ''https://files.example/b.mp4'',
      thumbnail = [], caption = ''Untitled Video'', description = ''first'',
      author = ''owner'', created_at = 500, views = None, telegram_file_id = ''b'',
      duration = Some 12, width = 320, height = 240, file_size = 4096\<rparr>"

definition sample_disk :: disk where
  "sample_disk =
     \<lparr>posts_file = Json [older_post, sample_post], stats_file = Absent,
      posts_writable = True, stats_writable = True\<rparr>"

definition sample_env :: env where
  "sample_env =
     \<lparr>date_now = 2000, new_date = 2001,
      getFileLink = (\<lambda>f. Inr (''https://files.example/'' @ f))\<rparr>"

definition sample_sender :: sender where
  "sample_sender = \<lparr>username = Some ''Admin'', first_name = Some ''Ann''\<rparr>"

definition sample_photo :: tg_file where
  "sample_photo =
     \<lparr>file_id = ''c'', file_width = 800, file_height = 600, file_bytes = 9000,
      file_duration = None\<rparr>"

section \<open>Facts about the sample data\<close>

lemma readPosts_Json: "readPosts (Json ps) = ps"
  by (simp add: readPosts_def readPosts_try_def fs_readFile_def JSON_parse_def)

lemma stored_sample: "stored sample_disk = [older_post, sample_post]"
  by (simp add: sample_disk_def readPosts_Json)

lemma sample_ids: "post_id older_post = 77" "post_id sample_post = 123"
  by (simp_all add: older_post_def sample_post_def)

lemma sample_writable: "posts_writable sample_disk"
  by (simp add: sample_disk_def)

lemma sort_sample: "sort_newest_first [older_post, sample_post] = [sample_post, older_post]"
  by (simp add: sort_newest_first_def older_post_def sample_post_def)

lemma sample_link: "getFileLink sample_env f = Inr (''https://files.example/'' @ f)"
  by (simp add: sample_env_def)

lemma sample_photo_id: "file_id sample_photo = ''c''"
  by (simp add: sample_photo_def)

lemma sample_isAdmin: "isAdmin [''admin'', ''owner''] sample_sender"
  by (simp add: isAdmin_def sample_sender_def toLowerCase_def toLowerCase_char_def)
     code_simp

lemma parseInt_123: "parseInt ''123'' = Some 123"
  by code_simp

lemma parseInt_9: "parseInt ''9'' = Some 9"
  by code_simp

lemma parseInt_abc: "parseInt ''abc'' = None"
  by code_simp

lemma js_toString_1: "js_toString 1 = ''1''"
  by code_simp

lemma js_toString_12: "js_toString 12 = ''12''"
  by code_simp

lemma js_toString_123: "js_toString 123 = ''123''"
  by code_simp



lemma first_piece_upload_sunset:
  "takeWhile (\<lambda>c. c \<noteq> CHR '' '') ''/upload  Sunset '' = ''/upload''"
  "trim (drop 1 (dropWhile (\<lambda>c. c \<noteq> CHR '' '') ''/upload  Sunset '')) = ''Sunset''"
  by (simp_all add: trim_def isWhiteSpace_def)

lemma first_piece_upload_only:
  "trim (drop 1 (dropWhile (\<lambda>c. c \<noteq> CHR '' '') ''/upload'')) = []"
  by (simp add: trim_def)

lemma first_piece_hello:
  "takeWhile (\<lambda>c. c \<noteq> CHR '' '') ''hello /upload'' \<noteq> ''/upload''"
  by simp

lemma spec_first_token_two_lines:
  "spec_first_token (''/upload'' @ [CHR 0x0A] @ ''Sunset'') = ''/upload''"
  by (simp add: spec_first_token_def isWhiteSpace_def)

section \<open>The store and the statistics\<close>

lemma foldl_views_acc:
  "foldl (\<lambda>sum p. sum + views_or_0 p) a ps = a + sum_list (map views_or_0 ps)"
  by (induction ps arbitrary: a) simp_all

lemma updateStats_posts_file: "posts_file (snd (updateStats now d)) = posts_file d"
  by (simp add: updateStats_def Let_def)

lemma updateStats_writable:
  "posts_writable (snd (updateStats now d)) = posts_writable d"
  "stats_writable (snd (updateStats now d)) = stats_writable d"
  by (simp_all add: updateStats_def Let_def)

text \<open>
  Claim C9. \<open>readPosts\<close> has no exceptional result: on an absent file, an unreadable file
  and a file whose text is not JSON it returns the empty list, and on a file that holds
  the JSON of a post list it returns that list, whole and in order.
\<close>

theorem readPosts_total:
  "readPosts Absent = [] \<and> readPosts Unreadable = [] \<and> readPosts Malformed = []
     \<and> readPosts (Json ps) = ps"
  by (simp add: readPosts_def readPosts_try_def fs_readFile_def JSON_parse_def)

text \<open>
  Claim C8. When \<open>updateStats\<close> returns a snapshot, its \<open>total_posts\<close> is the number of
  posts in the store and its \<open>total_views\<close> is the sum of their \<open>views\<close>, a missing
  counter counting as 0; the store is the one on disk when the operation returns.
\<close>

theorem updateStats_snapshot:
  assumes "updateStats now d = (Some st, d')"
  shows "total_posts st = length (readPosts (posts_file d'))
       \<and> total_views st
           = (\<Sum>p\<leftarrow>readPosts (posts_file d'). case views p of None \<Rightarrow> 0 | Some v \<Rightarrow> v)"
proof -
  have same: "posts_file d' = posts_file d"
    using assms updateStats_posts_file [of now d] by simp
  have or0: "sum_list (map views_or_0 xs)
      = (\<Sum>p\<leftarrow>xs. case views p of None \<Rightarrow> 0 | Some v \<Rightarrow> v)" for xs
    by (induction xs) (simp_all add: views_or_0_def split: option.splits)
  have "st = \<lparr>total_posts = length (readPosts (posts_file d)),
              total_views = foldl (\<lambda>sum p. sum + views_or_0 p) 0 (readPosts (posts_file d)),
              last_update = now\<rparr>"
    using assms by (simp add: updateStats_def Let_def split: if_splits)
  then have "total_posts st = length (readPosts (posts_file d))"
    and "total_views st = sum_list (map views_or_0 (readPosts (posts_file d)))"
    by (simp_all add: foldl_views_acc)
  then show ?thesis
    by (simp only: same or0)
qed

theorem updateStats_snapshot_witness:
  "updateStats 5 sample_disk
     = (Some \<lparr>total_posts = 2, total_views = 3, last_update = 5\<rparr>,
        sample_disk\<lparr>stats_file := Json \<lparr>total_posts = 2, total_views = 3, last_update = 5\<rparr>\<rparr>)
   \<and> total_views \<lparr>total_posts = 2, total_views = 3, last_update = 5\<rparr>
       = (\<Sum>p\<leftarrow>[older_post, sample_post]. case views p of None \<Rightarrow> 0 | Some v \<Rightarrow> v)"
proof -
  have h: "updateStats 5 sample_disk
     = (Some \<lparr>total_posts = 2, total_views = 3, last_update = 5\<rparr>,
        sample_disk\<lparr>stats_file := Json \<lparr>total_posts = 2, total_views = 3, last_update = 5\<rparr>\<rparr>)"
    by (simp add: updateStats_def Let_def stored_sample views_or_0_def older_post_def sample_post_def)
       (simp add: sample_disk_def)
  from updateStats_snapshot [OF h] h show ?thesis
    by (simp add: stored_sample)
qed

section \<open>Reading numbers: \<open>parseInt\<close> on decimal strings\<close>

lemma isWhiteSpace_of_char:
  "isWhiteSpace c \<longleftrightarrow> (of_char c :: nat) \<in> {9, 10, 11, 12, 13, 32}"
proof -
  have eq: "c = c' \<longleftrightarrow> (of_char c :: nat) = of_char c'" for c'
    by simp
  show ?thesis
    unfolding isWhiteSpace_def by (simp add: eq del: of_char_eq_iff)
qed

lemma char_eq_of_char: "c = c' \<longleftrightarrow> (of_char c :: nat) = of_char c'"
  by simp

lemma digitValue_digit: "d < 10 \<Longrightarrow> digitValue (char_of (48 + d)) = Some (d::nat)"
  by (simp add: digitValue_def)

lemma isRadixDigit_digit: "d < 10 \<Longrightarrow> isRadixDigit 10 (char_of (48 + (d::nat)))"
  by (simp add: isRadixDigit_def digitValue_digit)

lemma digit_not_space: "d < 10 \<Longrightarrow> \<not> isWhiteSpace (char_of (48 + (d::nat)))"
  by (simp add: isWhiteSpace_of_char)

lemma digit_not_sign:
  "d < 10 \<Longrightarrow> char_of (48 + (d::nat)) \<noteq> CHR ''-'' \<and> char_of (48 + d) \<noteq> CHR ''+''"
  by (simp add: char_eq_of_char del: of_char_eq_iff)

lemma digit_not_zero:
  "0 < d \<Longrightarrow> d < 10 \<Longrightarrow> char_of (48 + (d::nat)) \<noteq> CHR ''0''"
  by (simp add: char_eq_of_char del: of_char_eq_iff)

lemma digits_all: "list_all (isRadixDigit 10) (digits n)"
  by (induction n rule: digits.induct) (subst digits.simps, simp add: isRadixDigit_digit)

lemma radixValue_snoc:
  "radixValue R (Z @ [c]) = radixValue R Z * R + (case digitValue c of None \<Rightarrow> 0 | Some v \<Rightarrow> v)"
  by (simp add: radixValue_def)

lemma radixValue_digits: "radixValue 10 (digits n) = n"
proof (induction n rule: digits.induct)
  case (1 n)
  show ?case
  proof (cases "n < 10")
    case True
    then show ?thesis by (subst digits.simps) (simp add: radixValue_def digitValue_digit)
  next
    case False
    then have "radixValue 10 (digits (n div 10)) = n div 10" using 1 by simp
    with False show ?thesis
      by (subst digits.simps) (simp add: radixValue_snoc digitValue_digit)
  qed
qed

lemma digits_head:
  "0 < n \<Longrightarrow> \<exists>(d::nat) cs. digits n = char_of (48 + d) # cs \<and> 0 < d \<and> d < 10"
proof (induction n rule: digits.induct)
  case (1 n)
  show ?case
  proof (cases "n < 10")
    case True
    then have "digits n = char_of (48 + n) # []" by (subst digits.simps) simp
    with True 1(2) show ?thesis by blast
  next
    case False
    then have "0 < n div 10" by simp
    with 1(1) False obtain d :: nat and cs where "digits (n div 10) = char_of (48 + d) # cs" "0 < d" "d < 10"
      by blast
    with False have "digits n = char_of (48 + d) # (cs @ [char_of (48 + n mod 10)])"
      by (subst digits.simps) simp
    with \<open>0 < d\<close> \<open>d < 10\<close> show ?thesis by blast
  qed
qed

lemma takeWhile_digits:
  assumes "rest = [] \<or> \<not> isRadixDigit 10 (hd rest)"
  shows "takeWhile (isRadixDigit 10) (digits n @ rest) = digits n"
proof -
  have rest: "takeWhile (isRadixDigit 10) rest = []"
    using assms by (cases rest) auto
  have "x \<in> set (digits n) \<Longrightarrow> isRadixDigit 10 x" for x
    using digits_all [of n] by (simp add: list_all_iff)
  then have "takeWhile (isRadixDigit 10) (digits n @ rest)
           = digits n @ takeWhile (isRadixDigit 10) rest"
    by (rule takeWhile_append2)
  then show ?thesis by (simp only: rest append_Nil2)
qed

lemma parseInt_digits:
  assumes "0 < n" and "rest = [] \<or> \<not> isRadixDigit 10 (hd rest)"
  shows "parseInt (digits n @ rest) = Some (int n)"
proof -
  obtain d :: nat and cs where dg: "digits n = char_of (48 + d) # cs" and d: "0 < d" "d < 10"
    using digits_head [OF assms(1)] by blast
  have ne: "digits n \<noteq> []" using dg by simp
  have ws: "dropWhile isWhiteSpace (digits n @ rest) = digits n @ rest"
    using dg digit_not_space [OF d(2)] by simp
  have t1: "take 1 (digits n @ rest) = [char_of (48 + d)]"
    using dg by simp
  have t2: "take 2 (digits n @ rest) = char_of (48 + d) # take 1 (cs @ rest)"
    using dg by (simp add: numeral_2_eq_2)
  have sign: "take 1 (digits n @ rest) \<noteq> ''-''" "take 1 (digits n @ rest) \<noteq> ''+''"
    unfolding t1 using digit_not_sign [OF d(2)] by simp_all
  have hex: "take 2 (digits n @ rest) \<noteq> ''0x''" "take 2 (digits n @ rest) \<noteq> ''0X''"
    unfolding t2 using digit_not_zero [OF d] by simp_all
  have tw: "takeWhile (isRadixDigit 10) (digits n @ rest) = digits n"
    by (rule takeWhile_digits [OF assms(2)])
  show ?thesis
    unfolding parseInt_def Let_def ws
    by (simp only: sign hex tw ne radixValue_digits if_False simp_thms mult_1)
qed

lemma parseInt_js_toString:
  assumes "0 < n" and "rest = [] \<or> \<not> isRadixDigit 10 (hd rest)"
  shows "parseInt (js_toString n @ rest) = Some n"
  using parseInt_digits [of "nat n" rest] assms by (simp add: js_toString_def)

section \<open>Pagination\<close>

lemma js_slice_window:
  assumes "0 \<le> a" and "a \<le> b"
  shows "js_slice xs (Some a) (Some b) = take (nat (b - a)) (drop (nat a) xs)"
proof (cases "a \<le> int (length xs)")
  case True
  with assms show ?thesis
    by (auto simp: js_slice_def Let_def min_def max_def nat_diff_distrib)
next
  case False
  with assms show ?thesis
    by (simp add: js_slice_def Let_def min_def max_def)
qed

lemma js_slice_NaN: "js_slice xs None None = []"
  by (simp add: js_slice_def)

lemma get_posts_page:
  assumes "1 \<le> k" and "1 \<le> L"
  shows "get_posts now (Some (js_toString k)) (Some (js_toString L)) d
       = (Success \<lparr>posts = take (nat L) (drop (nat ((k - 1) * L))
                              (sort_newest_first (readPosts (posts_file d)))),
                   total = length (readPosts (posts_file d)), page = Some k,
                   total_pages = ceil_pages (length (readPosts (posts_file d))) (Some L),
                   stats = fst (updateStats now d)\<rparr>,
          snd (updateStats now d))"
proof -
  have pk: "parseInt (js_toString k) = Some k"
    using parseInt_js_toString [of k "[]"] assms(1) by simp
  have pl: "parseInt (js_toString L) = Some L"
    using parseInt_js_toString [of L "[]"] assms(2) by simp
  have win: "js_slice xs (Some ((k - 1) * L)) (Some ((k - 1) * L + L))
           = take (nat L) (drop (nat ((k - 1) * L)) xs)" for xs :: "post list"
    using js_slice_window [of "(k - 1) * L" "(k - 1) * L + L" xs] assms by simp
  show ?thesis
    by (simp add: get_posts_def Let_def pk pl js_arith_def win split: prod.splits)
qed

lemma fetch_pages_window:
  assumes "1 \<le> L"
  shows "1 \<le> k \<Longrightarrow> fetch_pages now n k L d
       = take (n * nat L) (drop (nat ((k - 1) * L)) (sort_newest_first (readPosts (posts_file d))))"
proof (induction n arbitrary: k d)
  case 0
  then show ?case by simp
next
  case (Suc n)
  let ?xs = "sort_newest_first (readPosts (posts_file d))"
  let ?d' = "snd (updateStats now d)"
  have same: "posts_file ?d' = posts_file d" by (rule updateStats_posts_file)
  have step: "fetch_pages now (Suc n) k L d
            = take (nat L) (drop (nat ((k - 1) * L)) ?xs) @ fetch_pages now n (k + 1) L ?d'"
    by (simp add: get_posts_page [OF Suc.prems assms])
  have off: "nat (k * L) = nat ((k - 1) * L) + nat L"
    using Suc.prems assms by (simp add: nat_add_distrib [symmetric] algebra_simps)
  have "fetch_pages now n (k + 1) L ?d' = take (n * nat L) (drop (nat (k * L)) ?xs)"
    using Suc.IH [of "k + 1" ?d'] Suc.prems by (simp add: same)
  then show ?case
    unfolding step by (simp add: off take_add drop_drop add.commute)
qed

lemma sorted_wrt_newest_first:
  "sorted_wrt (\<lambda>p q. created_at q \<le> created_at p) (sort_newest_first ps)"
proof -
  have "sorted (map (\<lambda>p. - created_at p) (sort_newest_first ps))"
    by (simp add: sort_newest_first_def)
  then show ?thesis by (simp add: sorted_map)
qed

text \<open>
  Claim C6. For a page size \<open>L \<ge> 1\<close> and a store that no request changes, the posts of the
  pages 1, 2, ..., \<open>K\<close> of \<^verbatim>\<open>GET /api/posts\<close>, appended in order, are the whole store once
  \<open>K\<close> pages cover it: the same posts with the same multiplicities (no duplicate, no
  omission), newest first.
\<close>

theorem pages_concat:
  assumes "1 \<le> L" and "length (readPosts (posts_file d)) \<le> K * nat L"
  shows "fetch_pages now K 1 L d = sort_newest_first (readPosts (posts_file d))
       \<and> mset (fetch_pages now K 1 L d) = mset (readPosts (posts_file d))
       \<and> sorted_wrt (\<lambda>p q. created_at q \<le> created_at p) (fetch_pages now K 1 L d)"
proof -
  have "fetch_pages now K 1 L d = sort_newest_first (readPosts (posts_file d))"
    using fetch_pages_window [OF assms(1), of 1 now K d] assms(2)
    by (simp add: sort_newest_first_def)
  then show ?thesis
    by (simp add: sorted_wrt_newest_first) (simp add: sort_newest_first_def)
qed

theorem pages_concat_witness:
  "(1::int) \<le> 1 \<and> length (stored sample_disk) \<le> 2 * nat 1
   \<and> fetch_pages 5 2 1 1 sample_disk = [sample_post, older_post]
   \<and> mset (fetch_pages 5 2 1 1 sample_disk) = mset (stored sample_disk)"
  using pages_concat [of 1 sample_disk 2 5]
  by (simp add: stored_sample sort_sample)

lemma get_posts_NaN:
  assumes "parseInt page_v = None \<or> parseInt limit_v = None"
  shows "listing_posts (get_posts now (Some page_v) (Some limit_v) d) = Some []"
  using assms
  by (auto simp: listing_posts_def get_posts_def Let_def case_prod_beta js_arith_def js_slice_NaN
      split: option.splits)

lemma get_posts_default_page:
  "get_posts now None limit_q d = get_posts now (Some ''1'') limit_q d"
  by (simp add: get_posts_def js_toString_1)

lemma get_posts_default_limit:
  "get_posts now page_q None d = get_posts now page_q (Some ''12'') d"
  by (simp add: get_posts_def js_toString_12)

lemma get_posts_first_page:
  "listing_posts (get_posts now (Some ''1'') (Some ''12'') d)
     = Some (take 12 (sort_newest_first (stored d)))"
  using get_posts_page [of 1 12 now d]
  by (simp add: js_toString_1 js_toString_12 listing_posts_def)

text \<open>
  Claim C2, as amended. A missing \<open>page\<close> is read as 1 and a missing \<open>limit\<close> as 12, so
  that the request without either returns the 12 newest posts. A value that is present
  and not numeric (\<open>parseInt\<close> gives \<open>NaN\<close>) is not replaced by the default: the answer is a
  success envelope whose \<open>posts\<close> are empty.
\<close>

theorem get_posts_defaults:
  "get_posts now None limit_q d = get_posts now (Some ''1'') limit_q d
   \<and> get_posts now page_q None d = get_posts now page_q (Some ''12'') d
   \<and> listing_posts (get_posts now None None d) = Some (take 12 (sort_newest_first (stored d)))
   \<and> (parseInt s = None
        \<longrightarrow> listing_posts (get_posts now (Some s) limit_q d) = Some []
          \<and> listing_posts (get_posts now page_q (Some s) d) = Some [])"
proof (intro conjI impI)
  show "get_posts now None limit_q d = get_posts now (Some ''1'') limit_q d"
    by (rule get_posts_default_page)
  show "get_posts now page_q None d = get_posts now page_q (Some ''12'') d"
    by (rule get_posts_default_limit)
  show "listing_posts (get_posts now None None d) = Some (take 12 (sort_newest_first (stored d)))"
    by (simp only: get_posts_default_page get_posts_default_limit get_posts_first_page)
next
  assume s: "parseInt s = None"
  have "listing_posts (get_posts now (Some s) (Some l) d) = Some []" for l
    using s by (simp add: get_posts_NaN)
  then show "listing_posts (get_posts now (Some s) limit_q d) = Some []"
    by (cases limit_q) (simp_all add: get_posts_default_limit)
  have "listing_posts (get_posts now (Some p) (Some s) d) = Some []" for p
    using s by (simp add: get_posts_NaN)
  then show "listing_posts (get_posts now page_q (Some s) d) = Some []"
    by (cases page_q) (simp_all add: get_posts_default_page)
qed

theorem get_posts_defaults_witness:
  "parseInt ''abc'' = None
   \<and> listing_posts (get_posts 5 (Some ''abc'') None sample_disk) = Some []
   \<and> listing_posts (get_posts 5 None (Some ''abc'') sample_disk) = Some []
   \<and> listing_posts (get_posts 5 None None sample_disk) = Some [sample_post, older_post]"
proof -
  note inst = get_posts_defaults [of 5 None sample_disk None "''abc''"]
  from inst have all: "listing_posts (get_posts 5 None None sample_disk)
      = Some (take 12 (sort_newest_first (stored sample_disk)))"
    by blast
  from inst have nan: "parseInt ''abc'' = None
      \<longrightarrow> listing_posts (get_posts 5 (Some ''abc'') None sample_disk) = Some []
        \<and> listing_posts (get_posts 5 None (Some ''abc'') sample_disk) = Some []"
    by blast
  from nan parseInt_abc have
    "listing_posts (get_posts 5 (Some ''abc'') None sample_disk) = Some []"
    "listing_posts (get_posts 5 None (Some ''abc'') sample_disk) = Some []"
    by blast+
  moreover have "listing_posts (get_posts 5 None None sample_disk) = Some [sample_post, older_post]"
    unfolding all by (simp add: stored_sample sort_sample)
  ultimately show ?thesis
    using parseInt_abc by blast
qed

text \<open>
  Claim C2 as stated fails: with two posts in the store, \<^verbatim>\<open>page=abc\<close> returns no post,
  where \<^verbatim>\<open>page=1&limit=12\<close> returns both.
\<close>

theorem get_posts_malformed_page_counterexample:
  "parseInt ''abc'' = None
   \<and> listing_posts (get_posts 5 (Some ''abc'') None sample_disk) = Some []
   \<and> listing_posts (get_posts 5 (Some ''1'') (Some ''12'') sample_disk)
       = Some [sample_post, older_post]"
proof -
  have "listing_posts (get_posts 5 (Some ''abc'') (Some ''12'') sample_disk) = Some []"
    by (rule get_posts_NaN) (simp add: parseInt_abc)
  then show ?thesis
    by (simp add: parseInt_abc get_posts_default_limit get_posts_first_page stored_sample sort_sample)
qed

section \<open>The view counter\<close>

lemma findIndex_Some:
  "findIndex P xs = Some i \<Longrightarrow> i < length xs \<and> P (xs ! i) \<and> (\<forall>j<i. \<not> P (xs ! j))"
proof (induction xs arbitrary: i)
  case Nil
  then show ?case by simp
next
  case (Cons x xs)
  show ?case
  proof (cases "P x")
    case True
    with Cons.prems show ?thesis by simp
  next
    case False
    with Cons.prems obtain i' where i': "findIndex P xs = Some i'" "i = Suc i'"
      by (auto split: option.splits)
    from Cons.IH [OF i'(1)] False i'(2) show ?thesis
      by (auto simp: less_Suc_eq_0_disj)
  qed
qed

lemma findIndex_None: "findIndex P xs = None \<longleftrightarrow> (\<forall>x\<in>set xs. \<not> P x)"
  by (induction xs) (auto split: option.splits)

lemma findIndex_update:
  "findIndex P xs = Some i \<Longrightarrow> P y \<Longrightarrow> findIndex P (xs[i := y]) = Some i"
proof (induction xs arbitrary: i)
  case Nil
  then show ?case by simp
next
  case (Cons x xs)
  then show ?case
    by (cases "P x") (auto split: option.splits)
qed

lemma view_post_found:
  assumes "findIndex (\<lambda>p. Some (post_id p) = parseInt id_param) (readPosts (posts_file d)) = Some i"
    and "posts_writable d"
  shows "fst (view_post now id_param d) = Success ()"
    and "readPosts (posts_file (snd (view_post now id_param d)))
       = (readPosts (posts_file d))
           [i := (readPosts (posts_file d) ! i)
                   \<lparr>views := Some (views_or_0 (readPosts (posts_file d) ! i) + 1)\<rparr>]"
    and "posts_writable (snd (view_post now id_param d))"
  using assms
  by (simp_all add: view_post_def Let_def writePosts_def case_prod_beta updateStats_posts_file
      updateStats_writable readPosts_Json)

lemma view_post_not_found:
  assumes "findIndex (\<lambda>p. Some (post_id p) = parseInt id_param) (readPosts (posts_file d)) = None"
  shows "view_post now id_param d = (Success (), d)"
  using assms by (simp add: view_post_def Let_def)

lemma view_post_success: "fst (view_post now id_param d) = Success ()"
  by (simp add: view_post_def Let_def case_prod_beta split: option.splits)

lemma view_post_NaN: "parseInt s = None \<Longrightarrow> view_post now s d = (Success (), d)"
proof -
  assume "parseInt s = None"
  then have "findIndex (\<lambda>p. Some (post_id p) = parseInt s) (stored d) = None"
    by (simp add: findIndex_None)
  then show ?thesis by (rule view_post_not_found)
qed

lemma views_or_0_update: "views_or_0 (p\<lparr>views := Some v\<rparr>) = v"
  by (simp add: views_or_0_def)

lemma view_times_counter:
  assumes "findIndex (\<lambda>p. Some (post_id p) = parseInt id_param) (stored d) = Some i"
    and "posts_writable d"
  shows "\<exists>v. stored (view_times n now id_param d) = (stored d)[i := (stored d ! i)\<lparr>views := v\<rparr>]
           \<and> (case v of None \<Rightarrow> 0 | Some x \<Rightarrow> x) = views_or_0 (stored d ! i) + int n"
  using assms
proof (induction n arbitrary: d)
  case 0
  have "(stored d)[i := (stored d ! i)\<lparr>views := views (stored d ! i)\<rparr>] = stored d"
    by simp
  moreover have "(case views (stored d ! i) of None \<Rightarrow> 0 | Some x \<Rightarrow> x) = views_or_0 (stored d ! i)"
    by (simp add: views_or_0_def split: option.splits)
  ultimately show ?case
    by (intro exI [of _ "views (stored d ! i)"]) simp
next
  case (Suc n)
  let ?ps = "stored d"
  let ?d1 = "snd (view_post now id_param d)"
  let ?p1 = "(?ps ! i)\<lparr>views := Some (views_or_0 (?ps ! i) + 1)\<rparr>"
  have i: "i < length ?ps" and m: "Some (post_id (?ps ! i)) = parseInt id_param"
    using findIndex_Some [OF Suc.prems(1)] by simp_all
  have ps1: "stored ?d1 = ?ps[i := ?p1]" and w1: "posts_writable ?d1"
    using view_post_found [OF Suc.prems] by simp_all
  have f1: "findIndex (\<lambda>p. Some (post_id p) = parseInt id_param) (stored ?d1) = Some i"
    unfolding ps1 using findIndex_update [OF Suc.prems(1), of ?p1] m by simp
  from Suc.IH [OF f1 w1] obtain v where
    v: "stored (view_times n now id_param ?d1) = (stored ?d1)[i := (stored ?d1 ! i)\<lparr>views := v\<rparr>]"
       "(case v of None \<Rightarrow> 0 | Some x \<Rightarrow> x) = views_or_0 (stored ?d1 ! i) + int n"
    by blast
  have "stored (view_times (Suc n) now id_param d) = ?ps[i := (?ps ! i)\<lparr>views := v\<rparr>]"
    using v(1) i by (simp add: ps1)
  moreover have "(case v of None \<Rightarrow> 0 | Some x \<Rightarrow> x) = views_or_0 (?ps ! i) + int (Suc n)"
    using v(2) i by (simp add: ps1 views_or_0_update)
  ultimately show ?case by blast
qed

text \<open>
  Claim C7. \<^verbatim>\<open>POST /api/posts/:id/view\<close>: when \<open>findIndex\<close> finds a post with the parsed id
  (and the posts file can be written), the answer is the success envelope and the store
  afterwards is the old one with that post's counter one higher; \<open>n\<close> calls in sequence
  raise the counter by \<open>n\<close> and touch nothing else. When no stored post has the id the
  disk is unchanged and the answer is still the success envelope.
\<close>

theorem view_post_increments:
  "(findIndex (\<lambda>p. Some (post_id p) = parseInt id_param) (stored d) = Some i \<and> posts_writable d
      \<longrightarrow> fst (view_post now id_param d) = Success ()
        \<and> stored (snd (view_post now id_param d))
            = (stored d)[i := (stored d ! i)\<lparr>views := Some (views_or_0 (stored d ! i) + 1)\<rparr>]
        \<and> (\<exists>v. stored (view_times n now id_param d)
                  = (stored d)[i := (stored d ! i)\<lparr>views := v\<rparr>]
               \<and> (case v of None \<Rightarrow> 0 | Some x \<Rightarrow> x) = views_or_0 (stored d ! i) + int n))
   \<and> ((\<forall>p\<in>set (stored d). Some (post_id p) \<noteq> parseInt id_param)
      \<longrightarrow> view_post now id_param d = (Success (), d))"
proof (intro conjI impI)
  assume a: "findIndex (\<lambda>p. Some (post_id p) = parseInt id_param) (stored d) = Some i \<and> posts_writable d"
  then have f: "findIndex (\<lambda>p. Some (post_id p) = parseInt id_param) (stored d) = Some i"
    and w: "posts_writable d" by simp_all
  show "fst (view_post now id_param d) = Success ()"
    by (rule view_post_success)
  show "stored (snd (view_post now id_param d))
      = (stored d)[i := (stored d ! i)\<lparr>views := Some (views_or_0 (stored d ! i) + 1)\<rparr>]"
    by (rule view_post_found(2) [OF f w])
  show "\<exists>v. stored (view_times n now id_param d) = (stored d)[i := (stored d ! i)\<lparr>views := v\<rparr>]
           \<and> (case v of None \<Rightarrow> 0 | Some x \<Rightarrow> x) = views_or_0 (stored d ! i) + int n"
    by (rule view_times_counter [OF f w])
next
  assume "\<forall>p\<in>set (stored d). Some (post_id p) \<noteq> parseInt id_param"
  then have "findIndex (\<lambda>p. Some (post_id p) = parseInt id_param) (stored d) = None"
    by (simp add: findIndex_None)
  then show "view_post now id_param d = (Success (), d)"
    by (rule view_post_not_found)
qed

theorem view_post_increments_witness:
  "findIndex (\<lambda>p. Some (post_id p) = parseInt ''123'') (stored sample_disk) = Some 1
   \<and> posts_writable sample_disk
   \<and> stored (snd (view_post 5 ''123'' sample_disk)) = [older_post, sample_post\<lparr>views := Some 4\<rparr>]
   \<and> views_or_0 (stored (view_times 2 5 ''123'' sample_disk) ! 1) = 5
   \<and> list_all (\<lambda>p. Some (post_id p) \<noteq> parseInt ''9'') (stored sample_disk)
   \<and> view_post 5 ''9'' sample_disk = (Success (), sample_disk)"
proof -
  have f: "findIndex (\<lambda>p. Some (post_id p) = parseInt ''123'') (stored sample_disk) = Some 1"
    by (simp add: stored_sample sample_ids parseInt_123)
  have w: "posts_writable sample_disk"
    by (simp add: sample_disk_def)
  have nf: "\<forall>p\<in>set (stored sample_disk). Some (post_id p) \<noteq> parseInt ''9''"
    by (simp add: stored_sample sample_ids parseInt_9)
  have v3: "views_or_0 sample_post = 3"
    by (simp add: views_or_0_def sample_post_def)
  note inst = view_post_increments [of "''123''" sample_disk 1 5 2]
  note inst9 = view_post_increments [of "''9''" sample_disk 1 5 2]
  from inst f w have one: "stored (snd (view_post 5 ''123'' sample_disk))
      = [older_post, sample_post\<lparr>views := Some 4\<rparr>]"
    by (simp add: stored_sample v3)
  from inst f w obtain v where
    "stored (view_times 2 5 ''123'' sample_disk) = [older_post, sample_post\<lparr>views := v\<rparr>]"
    "(case v of None \<Rightarrow> 0 | Some x \<Rightarrow> x) = 5"
    by (auto simp: stored_sample v3)
  then have two: "views_or_0 (stored (view_times 2 5 ''123'' sample_disk) ! 1) = 5"
    by (simp add: views_or_0_def split: option.splits)
  from inst9 nf have "view_post 5 ''9'' sample_disk = (Success (), sample_disk)"
    by blast
  with f w one two nf show ?thesis by (simp add: list_all_iff)
qed

text \<open>
  Claim C10. The route reads its \<open>id\<close> with \<open>parseInt\<close>: the decimal string of a post id
  \<open>n > 0\<close> followed by any text that does not go on with a digit (\<^verbatim>\<open>123abc\<close>) parses to \<open>n\<close>
  and increments the first stored post with that id; an \<open>id\<close> that \<open>parseInt\<close> reads as
  \<open>NaN\<close> changes nothing.
\<close>

theorem view_post_numeric_prefix:
  "(0 < n \<and> (rest = [] \<or> \<not> isRadixDigit 10 (hd rest))
      \<and> findIndex (\<lambda>p. post_id p = n) (stored d) = Some i \<and> posts_writable d
     \<longrightarrow> parseInt (js_toString n @ rest) = Some n
       \<and> stored (snd (view_post now (js_toString n @ rest) d))
           = (stored d)[i := (stored d ! i)\<lparr>views := Some (views_or_0 (stored d ! i) + 1)\<rparr>])
   \<and> (parseInt s = None \<longrightarrow> view_post now s d = (Success (), d))"
proof (intro conjI impI)
  assume a: "0 < n \<and> (rest = [] \<or> \<not> isRadixDigit 10 (hd rest))
      \<and> findIndex (\<lambda>p. post_id p = n) (stored d) = Some i \<and> posts_writable d"
  then have p: "parseInt (js_toString n @ rest) = Some n"
    using parseInt_js_toString [of n rest] by blast
  then show "parseInt (js_toString n @ rest) = Some n" .
  have "findIndex (\<lambda>p. Some (post_id p) = parseInt (js_toString n @ rest)) (stored d) = Some i"
    using a by (simp add: p)
  then show "stored (snd (view_post now (js_toString n @ rest) d))
           = (stored d)[i := (stored d ! i)\<lparr>views := Some (views_or_0 (stored d ! i) + 1)\<rparr>]"
    using a by (intro view_post_found(2)) simp_all
next
  assume "parseInt s = None"
  then show "view_post now s d = (Success (), d)" by (rule view_post_NaN)
qed

theorem view_post_numeric_prefix_witness:
  "parseInt ''123abc'' = Some 123
   \<and> stored (snd (view_post 5 ''123abc'' sample_disk)) = [older_post, sample_post\<lparr>views := Some 4\<rparr>]
   \<and> parseInt ''abc'' = None
   \<and> view_post 5 ''abc'' sample_disk = (Success (), sample_disk)"
proof -
  have w: "posts_writable sample_disk"
    by (simp add: sample_disk_def)
  have h: "(0::int) < 123 \<and> (''abc'' = [] \<or> \<not> isRadixDigit 10 (hd ''abc''))
      \<and> findIndex (\<lambda>p. post_id p = 123) (stored sample_disk) = Some 1 \<and> posts_writable sample_disk"
    by (simp add: stored_sample sample_ids w isRadixDigit_def digitValue_def)
  have v3: "views_or_0 sample_post = 3"
    by (simp add: views_or_0_def sample_post_def)
  from view_post_numeric_prefix [of 123 "''abc''" sample_disk 1 5 "''abc''"] h
  show ?thesis
    by (simp add: js_toString_123 parseInt_abc stored_sample v3)
qed

section \<open>Captions of media messages\<close>

lemma split_on_nonempty: "split_on sep s \<noteq> []"
  by (induction s) (auto simp: Let_def split: list.splits)

lemma split_on_unfold:
  "split_on sep s
     = takeWhile (\<lambda>c. c \<noteq> sep) s
       # (case dropWhile (\<lambda>c. c \<noteq> sep) s of [] \<Rightarrow> [] | c # r \<Rightarrow> split_on sep r)"
proof (induction s)
  case Nil
  then show ?case by simp
next
  case (Cons a s)
  show ?case
  proof (cases "a = sep")
    case True
    then show ?thesis by (simp add: Let_def)
  next
    case False
    with Cons show ?thesis by (simp add: Let_def)
  qed
qed

lemma join_split_on: "join_with sep (split_on sep s) = s"
proof (induction s)
  case Nil
  then show ?case by simp
next
  case (Cons a s)
  obtain x xs where r: "split_on sep s = x # xs"
    using split_on_nonempty [of sep s] by (cases "split_on sep s") auto
  show ?case
  proof (cases "a = sep")
    case True
    with Cons r show ?thesis by (simp add: Let_def)
  next
    case False
    with Cons r show ?thesis by (cases xs) (simp_all add: Let_def)
  qed
qed

lemma join_tl_split_on:
  "join_with sep (tl (split_on sep s)) = drop 1 (dropWhile (\<lambda>c. c \<noteq> sep) s)"
proof -
  have tl: "tl (split_on sep s)
          = (case dropWhile (\<lambda>c. c \<noteq> sep) s of [] \<Rightarrow> [] | c # r \<Rightarrow> split_on sep r)"
    by (subst split_on_unfold) simp
  show ?thesis
  proof (cases "dropWhile (\<lambda>c. c \<noteq> sep) s")
    case Nil
    then show ?thesis unfolding tl by (simp only: list.case join_with.simps drop_Nil)
  next
    case (Cons c r)
    then show ?thesis unfolding tl by (simp only: list.case join_split_on drop_Suc_Cons drop_0 One_nat_def)
  qed
qed

lemma upload_caption_eq:
  "upload_caption fallback (Some cap)
     = (if takeWhile (\<lambda>c. c \<noteq> CHR '' '') cap \<noteq> ''/upload'' then None
        else Some (let joined = trim (drop 1 (dropWhile (\<lambda>c. c \<noteq> CHR '' '') cap))
                   in if joined = [] then fallback else joined))"
proof -
  obtain command captionParts where sp: "split_on (CHR '' '') cap = command # captionParts"
    using split_on_nonempty [of "CHR '' ''" cap] by (cases "split_on (CHR '' '') cap") auto
  have c: "command = takeWhile (\<lambda>c. c \<noteq> CHR '' '') cap"
    using sp by (subst (asm) split_on_unfold) simp
  have j: "join_with (CHR '' '') captionParts = drop 1 (dropWhile (\<lambda>c. c \<noteq> CHR '' '') cap)"
    using join_tl_split_on [of "CHR '' ''" cap] sp by simp
  show ?thesis
    by (simp add: upload_caption_def sp c j Let_def)
qed

lemma upload_caption_None: "upload_caption fallback None = None"
  by (simp add: upload_caption_def)

lemma stage_pending_eq:
  "stage_pending p sess = Some \<lparr>pendingPost = Some p, waitingForDescription = True\<rparr>"
  by (cases sess) (simp_all add: stage_pending_def)

lemma photo_handler_usage:
  assumes "isAdmin admins from" and "takeWhile (\<lambda>c. c \<noteq> CHR '' '') cap \<noteq> ''/upload''"
  shows "photo_handler admins e from (Some cap) sizes sess = ([UsageGuidance ImagePost], sess)"
  using assms by (simp add: photo_handler_def upload_caption_eq)

lemma video_handler_usage:
  assumes "isAdmin admins from" and "takeWhile (\<lambda>c. c \<noteq> CHR '' '') cap \<noteq> ''/upload''"
  shows "video_handler admins e from (Some cap) video sess = ([UsageGuidance VideoPost], sess)"
  using assms by (simp add: video_handler_def upload_caption_eq)

lemma media_handlers_no_caption:
  assumes "isAdmin admins from"
  shows "photo_handler admins e from None sizes sess = ([UsageGuidance ImagePost], sess)"
    and "video_handler admins e from None video sess = ([UsageGuidance VideoPost], sess)"
  using assms by (simp_all add: photo_handler_def video_handler_def upload_caption_None)

lemma photo_handler_accept:
  assumes "isAdmin admins from" and "takeWhile (\<lambda>c. c \<noteq> CHR '' '') cap = ''/upload''"
    and "sizes \<noteq> []" and "getFileLink e (file_id (last sizes)) = Inr url"
  shows "\<exists>p. photo_handler admins e from (Some cap) sizes sess
             = ([DescriptionPrompt ImagePost],
                Some \<lparr>pendingPost = Some p, waitingForDescription = True\<rparr>)
           \<and> caption p
             = (if trim (drop 1 (dropWhile (\<lambda>c. c \<noteq> CHR '' '') cap)) = [] then ''Untitled Post''
                else trim (drop 1 (dropWhile (\<lambda>c. c \<noteq> CHR '' '') cap)))"
proof -
  obtain photo smaller where r: "rev sizes = photo # smaller"
    using assms(3) by (cases "rev sizes") auto
  then have "last sizes = photo"
    by (metis last_rev hd_rev list.sel(1) rev_rev_ident)
  with assms r show ?thesis
    by (simp add: photo_handler_def upload_caption_eq stage_pending_eq Let_def)
qed

lemma video_handler_accept:
  assumes "isAdmin admins from" and "takeWhile (\<lambda>c. c \<noteq> CHR '' '') cap = ''/upload''"
    and "getFileLink e (file_id video) = Inr url"
  shows "\<exists>p. video_handler admins e from (Some cap) video sess
             = ([DescriptionPrompt VideoPost],
                Some \<lparr>pendingPost = Some p, waitingForDescription = True\<rparr>)
           \<and> caption p
             = (if trim (drop 1 (dropWhile (\<lambda>c. c \<noteq> CHR '' '') cap)) = [] then ''Untitled Video''
                else trim (drop 1 (dropWhile (\<lambda>c. c \<noteq> CHR '' '') cap)))"
  using assms
  by (simp add: video_handler_def upload_caption_eq stage_pending_eq Let_def)

text \<open>
  Claim C5, as amended. For a photo or video message of an admin: the first piece of the
  caption up to the first space character (U+0020; no other white space delimits it) must
  be exactly \<^verbatim>\<open>/upload\<close>, else the handler replies with the usage message and leaves the
  session as it was, creating no pending post; a message without caption is treated the
  same way. Otherwise, when the Telegram file link resolves, the handler stages a pending
  post whose caption is what follows the first space, trimmed, or \<^verbatim>\<open>Untitled Post\<close> (photo)
  and \<^verbatim>\<open>Untitled Video\<close> (video) when that is empty.
\<close>

theorem media_caption_rule:
  assumes "isAdmin admins from"
  shows "photo_handler admins e from None sizes sess = ([UsageGuidance ImagePost], sess)
       \<and> video_handler admins e from None video sess = ([UsageGuidance VideoPost], sess)
       \<and> (takeWhile (\<lambda>c. c \<noteq> CHR '' '') cap \<noteq> ''/upload''
            \<longrightarrow> photo_handler admins e from (Some cap) sizes sess = ([UsageGuidance ImagePost], sess)
              \<and> video_handler admins e from (Some cap) video sess
                  = ([UsageGuidance VideoPost], sess))
       \<and> (takeWhile (\<lambda>c. c \<noteq> CHR '' '') cap = ''/upload''
              \<and> sizes \<noteq> [] \<and> getFileLink e (file_id (last sizes)) = Inr url
            \<longrightarrow> (\<exists>p. photo_handler admins e from (Some cap) sizes sess
                       = ([DescriptionPrompt ImagePost],
                          Some \<lparr>pendingPost = Some p, waitingForDescription = True\<rparr>)
                     \<and> caption p
                       = (if trim (drop 1 (dropWhile (\<lambda>c. c \<noteq> CHR '' '') cap)) = []
                          then ''Untitled Post''
                          else trim (drop 1 (dropWhile (\<lambda>c. c \<noteq> CHR '' '') cap)))))
       \<and> (takeWhile (\<lambda>c. c \<noteq> CHR '' '') cap = ''/upload''
              \<and> getFileLink e (file_id video) = Inr url
            \<longrightarrow> (\<exists>p. video_handler admins e from (Some cap) video sess
                       = ([DescriptionPrompt VideoPost],
                          Some \<lparr>pendingPost = Some p, waitingForDescription = True\<rparr>)
                     \<and> caption p
                       = (if trim (drop 1 (dropWhile (\<lambda>c. c \<noteq> CHR '' '') cap)) = []
                          then ''Untitled Video''
                          else trim (drop 1 (dropWhile (\<lambda>c. c \<noteq> CHR '' '') cap)))))"
  apply (intro conjI impI)
  subgoal by (rule media_handlers_no_caption(1) [OF assms])
  subgoal by (rule media_handlers_no_caption(2) [OF assms])
  subgoal by (rule photo_handler_usage [OF assms])
  subgoal by (rule video_handler_usage [OF assms])
  subgoal by (elim conjE, rule photo_handler_accept [OF assms], assumption+)
  subgoal by (elim conjE, rule video_handler_accept [OF assms], assumption+)
  done

theorem media_caption_rule_witness:
  "isAdmin [''admin'', ''owner''] sample_sender
   \<and> photo_handler [''admin'', ''owner''] sample_env sample_sender (Some ''hello /upload'')
         [sample_photo] None = ([UsageGuidance ImagePost], None)
   \<and> (\<exists>p. photo_handler [''admin'', ''owner''] sample_env sample_sender
              (Some ''/upload  Sunset '') [sample_photo] None
            = ([DescriptionPrompt ImagePost],
               Some \<lparr>pendingPost = Some p, waitingForDescription = True\<rparr>)
          \<and> caption p = ''Sunset'')
   \<and> (\<exists>p. video_handler [''admin'', ''owner''] sample_env sample_sender
              (Some ''/upload'') sample_photo None
            = ([DescriptionPrompt VideoPost],
               Some \<lparr>pendingPost = Some p, waitingForDescription = True\<rparr>)
          \<and> caption p = ''Untitled Video'')"
proof -
  note rej = media_caption_rule [OF sample_isAdmin, of sample_env "[sample_photo]" None
      sample_photo "''hello /upload''" "''u''"]
  note acc = media_caption_rule [OF sample_isAdmin, of sample_env "[sample_photo]" None
      sample_photo "''/upload  Sunset ''" "''https://files.example/c''"]
  from rej first_piece_hello have one:
    "photo_handler [''admin'', ''owner''] sample_env sample_sender (Some ''hello /upload'')
         [sample_photo] None = ([UsageGuidance ImagePost], None)"
    by blast
  have link: "takeWhile (\<lambda>c. c \<noteq> CHR '' '') ''/upload  Sunset '' = ''/upload''
      \<and> [sample_photo] \<noteq> []
      \<and> getFileLink sample_env (file_id (last [sample_photo])) = Inr ''https://files.example/c''"
    by (simp add: sample_link sample_photo_id)
  from acc link have
    "\<exists>p. photo_handler [''admin'', ''owner''] sample_env sample_sender
              (Some ''/upload  Sunset '') [sample_photo] None
            = ([DescriptionPrompt ImagePost],
               Some \<lparr>pendingPost = Some p, waitingForDescription = True\<rparr>)
          \<and> caption p
            = (if trim (drop 1 (dropWhile (\<lambda>c. c \<noteq> CHR '' '') ''/upload  Sunset '')) = []
               then ''Untitled Post''
               else trim (drop 1 (dropWhile (\<lambda>c. c \<noteq> CHR '' '') ''/upload  Sunset '')))"
    by blast
  then have two:
    "\<exists>p. photo_handler [''admin'', ''owner''] sample_env sample_sender
              (Some ''/upload  Sunset '') [sample_photo] None
            = ([DescriptionPrompt ImagePost],
               Some \<lparr>pendingPost = Some p, waitingForDescription = True\<rparr>)
          \<and> caption p = ''Sunset''"
    unfolding first_piece_upload_sunset(2) by simp
  note vid = media_caption_rule [OF sample_isAdmin, of sample_env "[sample_photo]" None
      sample_photo "''/upload''" "''https://files.example/c''"]
  have vlink: "takeWhile (\<lambda>c. c \<noteq> CHR '' '') ''/upload'' = ''/upload''
      \<and> getFileLink sample_env (file_id sample_photo) = Inr ''https://files.example/c''"
    by (simp add: sample_link sample_photo_id)
  from vid vlink have
    "\<exists>p. video_handler [''admin'', ''owner''] sample_env sample_sender
              (Some ''/upload'') sample_photo None
            = ([DescriptionPrompt VideoPost],
               Some \<lparr>pendingPost = Some p, waitingForDescription = True\<rparr>)
          \<and> caption p
            = (if trim (drop 1 (dropWhile (\<lambda>c. c \<noteq> CHR '' '') ''/upload'')) = []
               then ''Untitled Video''
               else trim (drop 1 (dropWhile (\<lambda>c. c \<noteq> CHR '' '') ''/upload'')))"
    by blast
  then have three:
    "\<exists>p. video_handler [''admin'', ''owner''] sample_env sample_sender
              (Some ''/upload'') sample_photo None
            = ([DescriptionPrompt VideoPost],
               Some \<lparr>pendingPost = Some p, waitingForDescription = True\<rparr>)
          \<and> caption p = ''Untitled Video''"
    unfolding first_piece_upload_only by simp
  from one two three sample_isAdmin show ?thesis by blast
qed

text \<open>
  Claim C5 as stated fails: in the two-line caption \<^verbatim>\<open>/upload\<close>, line feed, \<^verbatim>\<open>Sunset\<close> the
  first whitespace-delimited token is exactly \<^verbatim>\<open>/upload\<close>, and both handlers answer with
  the usage message and stage nothing.
\<close>

theorem upload_caption_newline_counterexample:
  "spec_first_token (''/upload'' @ [CHR 0x0A] @ ''Sunset'') = ''/upload''
   \<and> isAdmin [''admin'', ''owner''] sample_sender
   \<and> photo_handler [''admin'', ''owner''] sample_env sample_sender
        (Some (''/upload'' @ [CHR 0x0A] @ ''Sunset'')) [sample_photo] None
       = ([UsageGuidance ImagePost], None)
   \<and> video_handler [''admin'', ''owner''] sample_env sample_sender
        (Some (''/upload'' @ [CHR 0x0A] @ ''Sunset'')) sample_photo None
       = ([UsageGuidance VideoPost], None)"
proof -
  have "takeWhile (\<lambda>c. c \<noteq> CHR '' '') (''/upload'' @ [CHR 0x0A] @ ''Sunset'') \<noteq> ''/upload''"
    by simp
  then show ?thesis
    by (simp only: spec_first_token_two_lines sample_isAdmin simp_thms
        photo_handler_usage [OF sample_isAdmin] video_handler_usage [OF sample_isAdmin])
qed

section \<open>The text handler and the conversation\<close>

lemma text_handler_idle:
  "idle sess \<Longrightarrow> text_handler e text sess d = ([], sess, d)"
  by (cases sess) (simp_all add: text_handler_def idle_def awaiting_description_def)

lemma text_handler_awaiting:
  assumes "waitingForDescription s"
  shows "fst (text_handler e text (Some s) d) = [ErrorSaving]"
    and "fst (snd (text_handler e text (Some s) d))
           = Some \<lparr>pendingPost = None, waitingForDescription = False\<rparr>"
  using assms
  by (cases "pendingPost s"; simp add: text_handler_def Let_def case_prod_beta)+

lemma text_handler_commit:
  assumes "waitingForDescription s" and "pendingPost s = Some p" and "posts_writable d"
  shows "posts_file (snd (snd (text_handler e text (Some s) d)))
       = Json (p\<lparr>description := (if toLowerCase (trim text) = ''skip'' then [] else trim text)\<rparr>
               # readPosts (posts_file d))"
  using assms
  by (simp add: text_handler_def Let_def case_prod_beta writePosts_def updateStats_posts_file)








text \<open>
  Claim C4. An update handled while the session is idle (no session, or the flag false)
  leaves the disk as it was, so nothing is committed. A text handled while the session
  waits for a description always ends with the pending post cleared and the flag false,
  whatever the disk does (also when the write fails). And whenever an update changes the
  posts file, the session was waiting before and is idle after.
\<close>

theorem conversation_commit_only_from_awaiting:
  "(idle sess \<longrightarrow> snd (snd (handleUpdate admins e u sess d)) = d)
   \<and> (awaiting_description sess
        \<longrightarrow> fst (snd (handleUpdate admins e (TextMessage text) sess d))
            = Some \<lparr>pendingPost = None, waitingForDescription = False\<rparr>)
   \<and> (posts_file (snd (snd (handleUpdate admins e u sess d))) \<noteq> posts_file d
        \<longrightarrow> awaiting_description sess \<and> idle (fst (snd (handleUpdate admins e u sess d))))"
proof (intro conjI impI)
  assume "idle sess"
  then show "snd (snd (handleUpdate admins e u sess d)) = d"
    by (cases u) (simp_all add: case_prod_beta text_handler_idle)
next
  assume "awaiting_description sess"
  then obtain s where "sess = Some s" "waitingForDescription s"
    by (auto simp: awaiting_description_def split: option.splits)
  then show "fst (snd (handleUpdate admins e (TextMessage text) sess d))
            = Some \<lparr>pendingPost = None, waitingForDescription = False\<rparr>"
    by (simp add: text_handler_awaiting)
next
  assume ch: "posts_file (snd (snd (handleUpdate admins e u sess d))) \<noteq> posts_file d"
  then obtain m where u: "u = TextMessage m"
    by (cases u) (simp_all add: case_prod_beta)
  have aw: "awaiting_description sess"
  proof (rule ccontr)
    assume "\<not> awaiting_description sess"
    then have "text_handler e m sess d = ([], sess, d)"
      by (intro text_handler_idle) (simp add: idle_def)
    with ch show False by (simp add: u)
  qed
  then obtain s where s: "sess = Some s" "waitingForDescription s"
    by (auto simp: awaiting_description_def split: option.splits)
  have "idle (fst (snd (handleUpdate admins e u sess d)))"
    by (simp add: u s text_handler_awaiting idle_def awaiting_description_def)
  with aw show "awaiting_description sess" "idle (fst (snd (handleUpdate admins e u sess d)))"
    by simp_all
qed

theorem conversation_commit_only_from_awaiting_witness:
  "idle None
   \<and> snd (snd (handleUpdate [''admin''] sample_env (TextMessage ''skip'') None sample_disk)) = sample_disk
   \<and> awaiting_description (Some \<lparr>pendingPost = Some sample_post, waitingForDescription = True\<rparr>)
   \<and> fst (snd (handleUpdate [''admin''] sample_env (TextMessage ''skip'')
        (Some \<lparr>pendingPost = Some sample_post, waitingForDescription = True\<rparr>)
        (sample_disk\<lparr>posts_writable := False\<rparr>)))
      = Some \<lparr>pendingPost = None, waitingForDescription = False\<rparr>
   \<and> posts_file (snd (snd (handleUpdate [''admin''] sample_env (TextMessage ''skip'')
        (Some \<lparr>pendingPost = Some sample_post, waitingForDescription = True\<rparr>) sample_disk)))
      \<noteq> posts_file sample_disk
   \<and> idle (fst (snd (handleUpdate [''admin''] sample_env (TextMessage ''skip'')
        (Some \<lparr>pendingPost = Some sample_post, waitingForDescription = True\<rparr>) sample_disk)))"
proof -
  let ?aw = "Some \<lparr>pendingPost = Some sample_post, waitingForDescription = True\<rparr>"
  have i: "idle None" by (simp add: idle_def awaiting_description_def)
  have a: "awaiting_description ?aw" by (simp add: awaiting_description_def)
  have after: "posts_file (snd (snd (text_handler sample_env ''skip'' ?aw sample_disk)))
      = Json (sample_post\<lparr>description := (if toLowerCase (trim ''skip'') = ''skip'' then []
                                               else trim ''skip'')\<rparr> # [older_post, sample_post])"
    using text_handler_commit [of "\<lparr>pendingPost = Some sample_post, waitingForDescription = True\<rparr>"
        sample_post sample_disk sample_env "''skip''"]
    by (simp add: sample_writable stored_sample)
  have before: "posts_file sample_disk = Json [older_post, sample_post]"
    by (simp add: sample_disk_def)
  have ch: "posts_file (snd (snd (handleUpdate [''admin''] sample_env (TextMessage ''skip'') ?aw sample_disk)))
      \<noteq> posts_file sample_disk"
    by (simp only: handleUpdate.simps after before) simp
  from conversation_commit_only_from_awaiting
         [of None "[''admin'']" sample_env "TextMessage ''skip''" sample_disk "''skip''"] i
  have one: "snd (snd (handleUpdate [''admin''] sample_env (TextMessage ''skip'') None sample_disk)) = sample_disk"
    by blast
  from conversation_commit_only_from_awaiting
         [of ?aw "[''admin'']" sample_env "TextMessage ''skip''" "sample_disk\<lparr>posts_writable := False\<rparr>" "''skip''"] a
  have two: "fst (snd (handleUpdate [''admin''] sample_env (TextMessage ''skip'') ?aw
        (sample_disk\<lparr>posts_writable := False\<rparr>)))
      = Some \<lparr>pendingPost = None, waitingForDescription = False\<rparr>"
    by blast
  from conversation_commit_only_from_awaiting
         [of ?aw "[''admin'']" sample_env "TextMessage ''skip''" sample_disk "''skip''"] ch
  have three: "idle (fst (snd (handleUpdate [''admin''] sample_env (TextMessage ''skip'') ?aw sample_disk)))"
    by blast
  from i a ch one two three show ?thesis by blast
qed

text \<open>
  Claim C1 does not hold of the code. After the commit the handler clears
  \<^verbatim>\<open>ctx.session.pendingPost\<close> and only then reads it into \<^verbatim>\<open>post\<close>; \<^verbatim>\<open>post.type\<close> throws, and
  the \<^verbatim>\<open>catch\<close> sends the error message. So the one reply after a committed upload is
  \<open>ErrorSaving\<close>, although the post is in the store, and no run of the handler sends the
  confirmation.
\<close>

theorem text_handler_reply_is_error:
  "fst (text_handler e text (Some \<lparr>pendingPost = Some p, waitingForDescription = True\<rparr>)
         (d\<lparr>posts_writable := True\<rparr>)) = [ErrorSaving]
   \<and> stored (snd (snd (text_handler e text
         (Some \<lparr>pendingPost = Some p, waitingForDescription = True\<rparr>) (d\<lparr>posts_writable := True\<rparr>))))
       = p\<lparr>description := (if toLowerCase (trim text) = ''skip'' then [] else trim text)\<rparr>
         # stored d
   \<and> (\<forall>t c ds a i. UploadedSuccessfully t c ds a i \<notin> set (fst (text_handler e text sess d)))"
proof (intro conjI allI)
  show "fst (text_handler e text (Some \<lparr>pendingPost = Some p, waitingForDescription = True\<rparr>)
         (d\<lparr>posts_writable := True\<rparr>)) = [ErrorSaving]"
    by (simp add: text_handler_awaiting)
  show "stored (snd (snd (text_handler e text
         (Some \<lparr>pendingPost = Some p, waitingForDescription = True\<rparr>) (d\<lparr>posts_writable := True\<rparr>))))
       = p\<lparr>description := (if toLowerCase (trim text) = ''skip'' then [] else trim text)\<rparr>
         # stored d"
    using text_handler_commit [of "\<lparr>pendingPost = Some p, waitingForDescription = True\<rparr>" p
        "d\<lparr>posts_writable := True\<rparr>" e "text"]
    by (simp add: readPosts_Json)
  show "UploadedSuccessfully t c ds a i \<notin> set (fst (text_handler e text sess d))" for t c ds a i
  proof (cases "idle sess")
    case True
    then show ?thesis by (simp add: text_handler_idle)
  next
    case False
    then obtain s where "sess = Some s" "waitingForDescription s"
      by (auto simp: idle_def awaiting_description_def split: option.splits)
    then show ?thesis by (simp add: text_handler_awaiting)
  qed
qed

end
